theory Spec2Isabelle
  imports Main "HOL-Library.Word"
begin

section \<open>Storage instructions of the Tangerine Whistle EVM\<close>

text \<open>
  A shallow embedding of \<^verbatim>\<open>ethereum/tangerine_whistle/vm/instructions/storage.py\<close>:
  the two instructions \<^verbatim>\<open>sload\<close> and \<^verbatim>\<open>sstore\<close>. The Python functions mutate the
  frame \<^verbatim>\<open>evm\<close> in place and raise exceptions; here each takes the frame and returns
  either the frame after a normal return (\<open>Inr\<close>) or the exception together with the
  frame as it stands when the exception propagates (\<open>Inl\<close>).
\<close>

subsection \<open>Data model\<close>

type_synonym U256 = "256 word"
type_synonym Bytes = "8 word list"
type_synonym Bytes32 = Bytes
type_synonym Address = Bytes

text \<open>
  Modelled from the spec: the world state (\<^verbatim>\<open>ethereum.tangerine_whistle.state\<close> is not
  part of the sources at hand). The spec describes a key-value store of storage slots
  keyed by (contract address, slot key) whose values are words.
\<close>

type_synonym State = "Address \<times> Bytes32 \<Rightarrow> U256 option"

text \<open>
  Modelled from the spec: the frame and the two objects it refers to (the class
  \<^verbatim>\<open>Evm\<close> of \<^verbatim>\<open>ethereum.tangerine_whistle.vm\<close> is not part of the sources at hand).
  The fields are those \<^verbatim>\<open>storage.py\<close> reads or writes, under the paths it uses:
  \<^verbatim>\<open>evm.stack\<close>, \<^verbatim>\<open>evm.pc\<close>, \<^verbatim>\<open>evm.gas_left\<close>, \<^verbatim>\<open>evm.refund_counter\<close>,
  \<^verbatim>\<open>evm.env.state\<close> and \<^verbatim>\<open>evm.message.current_target\<close>. The spec gives \<^verbatim>\<open>pc\<close>,
  \<^verbatim>\<open>gas_left\<close> and \<^verbatim>\<open>refund_counter\<close> as non-negative integers and the stack as a
  sequence of words; the top of the stack is the last element of the list.
\<close>

record Environment =
  state :: State

record Message =
  current_target :: Address

record Evm =
  pc :: nat
  stack :: "U256 list"
  gas_left :: nat
  env :: Environment
  refund_counter :: nat
  message :: Message

datatype error = StackUnderflowError | StackOverflowError | OutOfGasError

text \<open>
  Modelled from the spec: the gas constants imported from \<^verbatim>\<open>..gas\<close>, which is not
  part of the sources at hand. The spec calls them fixed unsigned integers of one
  protocol version that are supplied to the instructions, so they are a parameter here:
  \<^verbatim>\<open>GAS_SLOAD\<close> is the spec's \<^verbatim>\<open>G_LOAD\<close>, \<^verbatim>\<open>GAS_STORAGE_SET\<close> its \<^verbatim>\<open>G_SET\<close>,
  \<^verbatim>\<open>GAS_STORAGE_UPDATE\<close> its \<^verbatim>\<open>G_RESET\<close> and \<^verbatim>\<open>GAS_STORAGE_CLEAR_REFUND\<close> its
  \<^verbatim>\<open>G_CLEAR_REFUND\<close>.
\<close>

record gas_constants =
  GAS_SLOAD :: nat
  GAS_STORAGE_CLEAR_REFUND :: nat
  GAS_STORAGE_SET :: nat
  GAS_STORAGE_UPDATE :: nat

subsection \<open>The collaborators of the instructions\<close>

text \<open>
  Modelled from the spec: \<^verbatim>\<open>U256.to_be_bytes32\<close> (\<^verbatim>\<open>ethereum.base_types\<close> is not part
  of the sources at hand): the word as 32 bytes, most significant byte first.
\<close>

definition to_be_bytes32 :: "U256 \<Rightarrow> Bytes32" where
  "to_be_bytes32 w = map (\<lambda>i. ucast (drop_bit (8 * (31 - i)) w)) [0..<32]"

text \<open>
  Modelled from the spec: \<^verbatim>\<open>pop\<close> and \<^verbatim>\<open>push\<close> of \<^verbatim>\<open>..stack\<close>, which is not part of
  the sources at hand. The spec: \<^verbatim>\<open>pop() -> Word\<close> fails with StackUnderflow if the stack
  is empty; \<^verbatim>\<open>push(Word)\<close> fails with StackOverflow if the depth limit (1024) is
  exceeded. Both work on the frame's list in place, so each returns the list it leaves.
\<close>

definition pop :: "U256 list \<Rightarrow> error + (U256 \<times> U256 list)" where
  "pop stk = (if stk = [] then Inl StackUnderflowError else Inr (last stk, butlast stk))"

definition push :: "U256 list \<Rightarrow> U256 \<Rightarrow> error + U256 list" where
  "push stk v = (if 1024 \<le> length stk then Inl StackOverflowError else Inr (stk @ [v]))"

text \<open>
  Modelled from the spec: \<^verbatim>\<open>charge_gas\<close> of \<^verbatim>\<open>..gas\<close>, which is not part of the
  sources at hand. The spec: \<^verbatim>\<open>charge(frame, amount)\<close> decrements \<^verbatim>\<open>gas_left\<close> by
  \<^verbatim>\<open>amount\<close> or fails with OutOfGas leaving \<^verbatim>\<open>gas_left == 0\<close>.
\<close>

definition charge_gas :: "Evm \<Rightarrow> nat \<Rightarrow> (error \<times> Evm) + Evm" where
  "charge_gas evm amount =
     (if gas_left evm < amount then Inl (OutOfGasError, evm\<lparr>gas_left := 0\<rparr>)
      else Inr (evm\<lparr>gas_left := gas_left evm - amount\<rparr>))"

text \<open>
  Modelled from the spec: \<^verbatim>\<open>get_storage\<close> and \<^verbatim>\<open>set_storage\<close> of \<^verbatim>\<open>...state\<close>, which
  is not part of the sources at hand. The spec: \<^verbatim>\<open>get(address, key) -> Word\<close> returns
  zero for unset keys; \<^verbatim>\<open>set(address, key, Word)\<close> creates or overwrites the slot, and
  a slot is cleared by writing zero to it.
\<close>

definition get_storage :: "State \<Rightarrow> Address \<Rightarrow> Bytes32 \<Rightarrow> U256" where
  "get_storage s address key = (case s (address, key) of None \<Rightarrow> 0 | Some v \<Rightarrow> v)"

definition set_storage :: "State \<Rightarrow> Address \<Rightarrow> Bytes32 \<Rightarrow> U256 \<Rightarrow> State" where
  "set_storage s address key v = s((address, key) \<mapsto> v)"

subsection \<open>The instructions\<close>

text \<open>
  \<^verbatim>\<open>sload\<close>: pop the key, charge \<^verbatim>\<open>GAS_SLOAD\<close>, read the slot of the current target,
  push the value, advance the program counter.
\<close>

definition sload :: "gas_constants \<Rightarrow> Evm \<Rightarrow> (error \<times> Evm) + Evm" where
  "sload G evm =
     (case pop (stack evm) of
        Inl e \<Rightarrow> Inl (e, evm)
      | Inr (w, stk) \<Rightarrow>
          let evm1 = evm\<lparr>stack := stk\<rparr>;
              key = to_be_bytes32 w
          in (case charge_gas evm1 (GAS_SLOAD G) of
                Inl err \<Rightarrow> Inl err
              | Inr evm2 \<Rightarrow>
                  let val = get_storage (state (env evm2)) (current_target (message evm2)) key
                  in (case push (stack evm2) val of
                        Inl e \<Rightarrow> Inl (e, evm2)
                      | Inr stk' \<Rightarrow> Inr (evm2\<lparr>stack := stk', pc := pc evm2 + 1\<rparr>))))"

text \<open>
  \<^verbatim>\<open>sstore\<close>: pop the key and the new value, read the current value of the slot, choose
  the cost from the two values, charge it, grant the refund when a nonzero slot is set to
  zero, write the slot, advance the program counter.
\<close>

definition sstore :: "gas_constants \<Rightarrow> Evm \<Rightarrow> (error \<times> Evm) + Evm" where
  "sstore G evm =
     (case pop (stack evm) of
        Inl e \<Rightarrow> Inl (e, evm)
      | Inr (w, stk) \<Rightarrow>
          let evm1 = evm\<lparr>stack := stk\<rparr>;
              key = to_be_bytes32 w
          in (case pop (stack evm1) of
                Inl e \<Rightarrow> Inl (e, evm1)
              | Inr (new_value, stk') \<Rightarrow>
                  let evm2 = evm1\<lparr>stack := stk'\<rparr>;
                      current_value =
                        get_storage (state (env evm2)) (current_target (message evm2)) key;
                      gas_cost =
                        (if new_value \<noteq> 0 \<and> current_value = 0 then GAS_STORAGE_SET G
                         else GAS_STORAGE_UPDATE G)
                  in (case charge_gas evm2 gas_cost of
                        Inl err \<Rightarrow> Inl err
                      | Inr evm3 \<Rightarrow>
                          let evm4 =
                                (if new_value = 0 \<and> current_value \<noteq> 0
                                 then evm3\<lparr>refund_counter :=
                                        refund_counter evm3 + GAS_STORAGE_CLEAR_REFUND G\<rparr>
                                 else evm3);
                              evm5 = evm4\<lparr>env := (env evm4)\<lparr>state :=
                                       set_storage (state (env evm4))
                                         (current_target (message evm4)) key new_value\<rparr>\<rparr>
                          in Inr (evm5\<lparr>pc := pc evm5 + 1\<rparr>))))"

subsection \<open>Observing an outcome\<close>

text \<open>
  The frame an invocation leaves behind, whether it returned or raised: Python mutates
  the frame in place, so the caller sees it either way.
\<close>

definition frame_after :: "(error \<times> Evm) + Evm \<Rightarrow> Evm" where
  "frame_after r = (case r of Inl (e, evm') \<Rightarrow> evm' | Inr evm' \<Rightarrow> evm')"

text \<open>
  Two world states have the same contents when every slot reads the same in both; a
  slot that was never written and a slot that holds zero are not told apart. Two frames
  are the same when they agree on the stack, the program counter, the remaining gas, the
  refund counter and the current target, and their world states have the same contents.
  Two outcomes are the same when both return or both raise the same error, and the
  frames they leave are the same.
\<close>

definition same_contents :: "State \<Rightarrow> State \<Rightarrow> bool" where
  "same_contents s t = (\<forall>address key. get_storage s address key = get_storage t address key)"

definition same_frame :: "Evm \<Rightarrow> Evm \<Rightarrow> bool" where
  "same_frame a b =
     (stack a = stack b \<and> pc a = pc b \<and> gas_left a = gas_left b \<and>
      refund_counter a = refund_counter b \<and>
      current_target (message a) = current_target (message b) \<and>
      same_contents (state (env a)) (state (env b)))"

definition same_outcome :: "(error \<times> Evm) + Evm \<Rightarrow> (error \<times> Evm) + Evm \<Rightarrow> bool" where
  "same_outcome r r' =
     (case r of
        Inl (e, a) \<Rightarrow> (case r' of Inl (e', b) \<Rightarrow> e = e' \<and> same_frame a b | Inr b \<Rightarrow> False)
      | Inr a \<Rightarrow> (case r' of Inl (e', b) \<Rightarrow> False | Inr b \<Rightarrow> same_frame a b))"

subsection \<open>The rules of the specification\<close>

text \<open>
  The two rules as the specification words them, to compare the instruction with. The
  cost of a store is \<^verbatim>\<open>G_SET\<close> if and only if the current value is zero and the new
  value is not, and \<^verbatim>\<open>G_RESET\<close> otherwise. The refund of a store is
  \<^verbatim>\<open>G_CLEAR_REFUND\<close> if and only if the slot goes from nonzero to zero, and nothing
  otherwise.
\<close>

definition spec_store_cost :: "gas_constants \<Rightarrow> U256 \<Rightarrow> U256 \<Rightarrow> nat" where
  "spec_store_cost G current_value new_value =
     (if current_value = 0 \<and> new_value \<noteq> 0 then GAS_STORAGE_SET G else GAS_STORAGE_UPDATE G)"

definition spec_store_refund :: "gas_constants \<Rightarrow> U256 \<Rightarrow> U256 \<Rightarrow> nat" where
  "spec_store_refund G current_value new_value =
     (if current_value \<noteq> 0 \<and> new_value = 0 then GAS_STORAGE_CLEAR_REFUND G else 0)"

subsection \<open>The scenarios of the specification\<close>

text \<open>
  The constants of the spec's scenarios (\<^verbatim>\<open>G_LOAD\<close> 50, \<^verbatim>\<open>G_SET\<close> 20000, \<^verbatim>\<open>G_RESET\<close>
  5000, \<^verbatim>\<open>G_CLEAR_REFUND\<close> 15000), a target address, and a frame of that target with
  a given stack, remaining gas and world state.
\<close>

definition scenario_gas :: gas_constants where
  "scenario_gas = \<lparr>GAS_SLOAD = 50, GAS_STORAGE_CLEAR_REFUND = 15000,
                    GAS_STORAGE_SET = 20000, GAS_STORAGE_UPDATE = 5000\<rparr>"

definition scenario_target :: Address where
  "scenario_target = replicate 20 1"

definition scenario_frame :: "U256 list \<Rightarrow> nat \<Rightarrow> State \<Rightarrow> Evm" where
  "scenario_frame stk gas s =
     \<lparr>pc = 0, stack = stk, gas_left = gas, env = \<lparr>state = s\<rparr>, refund_counter = 0,
      message = \<lparr>current_target = scenario_target\<rparr>\<rparr>"

text \<open>The world state of scenario B: slot 5 of the target holds 7.\<close>

definition scenario_state :: State where
  "scenario_state = Map.empty((scenario_target, to_be_bytes32 5) \<mapsto> 7)"

subsection \<open>The collaborators, case by case\<close>

lemma to_be_bytes32_length: "length (to_be_bytes32 w) = 32"
  by (simp add: to_be_bytes32_def)

text \<open>
  The key is big-endian: bit \<open>n\<close> of the word is bit \<open>n mod 8\<close> of the byte at index
  \<open>31 - n div 8\<close>, so the last byte is the least significant one, and distinct words
  give distinct keys.
\<close>

lemma to_be_bytes32_nth:
  "i < 32 \<Longrightarrow> to_be_bytes32 w ! i = ucast (drop_bit (8 * (31 - i)) w)"
  by (simp add: to_be_bytes32_def)

lemma to_be_bytes32_bit:
  assumes "n < 256"
  shows "bit (to_be_bytes32 w ! (31 - n div 8)) (n mod 8) = bit w n"
proof -
  from assms have small: "n div 8 \<le> 31" by simp
  then have flip: "31 - (31 - n div 8) = n div 8" by simp
  have "31 - n div 8 < 32" by simp
  then have "to_be_bytes32 w ! (31 - n div 8) = ucast (drop_bit (8 * (n div 8)) w)"
    by (simp only: to_be_bytes32_nth flip)
  then show ?thesis
    by (simp add: bit_ucast_iff bit_drop_bit_eq)
qed

lemma to_be_bytes32_inj:
  assumes "to_be_bytes32 a = to_be_bytes32 b"
  shows "a = b"
proof (rule bit_word_eqI)
  fix n
  assume "n < LENGTH(256)"
  then have n: "n < 256" by simp
  have "bit a n = bit (to_be_bytes32 a ! (31 - n div 8)) (n mod 8)"
    by (simp only: to_be_bytes32_bit [OF n])
  also have "\<dots> = bit (to_be_bytes32 b ! (31 - n div 8)) (n mod 8)"
    by (simp only: assms)
  also have "\<dots> = bit b n"
    by (simp only: to_be_bytes32_bit [OF n])
  finally show "bit a n = bit b n" .
qed

lemma to_be_bytes32_last: "last (to_be_bytes32 w) = ucast w"
proof -
  have "to_be_bytes32 w \<noteq> []"
    using to_be_bytes32_length [of w] by auto
  then have "last (to_be_bytes32 w) = to_be_bytes32 w ! 31"
    by (simp add: last_conv_nth to_be_bytes32_length)
  then show ?thesis by (simp add: to_be_bytes32_nth)
qed

lemma get_storage_set_storage:
  "get_storage (set_storage s address key v) address' key' =
     (if address' = address \<and> key' = key then v else get_storage s address' key')"
  by (simp add: get_storage_def set_storage_def)

subsection \<open>The instructions, case by case\<close>

text \<open>
  The outcome of each instruction in closed form, by the shape of the stack: empty, one
  word, or at least the operands the instruction pops.
\<close>

lemma pop_snoc: "pop (xs @ [x]) = Inr (x, xs)"
  by (simp add: pop_def)

lemma pop_Nil: "pop [] = Inl StackUnderflowError"
  by (simp add: pop_def)

lemma push_ok: "length stk < 1024 \<Longrightarrow> push stk v = Inr (stk @ [v])"
  by (simp add: push_def)

lemma sload_Nil: "stack evm = [] \<Longrightarrow> sload G evm = Inl (StackUnderflowError, evm)"
  by (simp add: sload_def pop_Nil)

lemma sload_snoc:
  "stack evm = rest @ [w] \<Longrightarrow>
   sload G evm =
     (if gas_left evm < GAS_SLOAD G
      then Inl (OutOfGasError, evm\<lparr>stack := rest, gas_left := 0\<rparr>)
      else if 1024 \<le> length rest
      then Inl (StackOverflowError, evm\<lparr>stack := rest, gas_left := gas_left evm - GAS_SLOAD G\<rparr>)
      else Inr (evm\<lparr>pc := pc evm + 1,
                  stack := rest @ [get_storage (state (env evm)) (current_target (message evm))
                                     (to_be_bytes32 w)],
                  gas_left := gas_left evm - GAS_SLOAD G\<rparr>))"
  by (simp add: sload_def pop_snoc charge_gas_def push_def Let_def)

lemma sstore_Nil: "stack evm = [] \<Longrightarrow> sstore G evm = Inl (StackUnderflowError, evm)"
  by (simp add: sstore_def pop_Nil)

lemma sstore_single:
  "stack evm = [x] \<Longrightarrow> sstore G evm = Inl (StackUnderflowError, evm\<lparr>stack := []\<rparr>)"
  by (simp add: sstore_def pop_def)

lemma sstore_snoc2:
  "stack evm = rest @ [new_value, w] \<Longrightarrow>
   current_value = get_storage (state (env evm)) (current_target (message evm)) (to_be_bytes32 w) \<Longrightarrow>
   gas_cost = (if new_value \<noteq> 0 \<and> current_value = 0 then GAS_STORAGE_SET G
               else GAS_STORAGE_UPDATE G) \<Longrightarrow>
   sstore G evm =
     (if gas_left evm < gas_cost
      then Inl (OutOfGasError, evm\<lparr>stack := rest, gas_left := 0\<rparr>)
      else Inr (evm\<lparr>pc := pc evm + 1,
                  stack := rest,
                  gas_left := gas_left evm - gas_cost,
                  env := (env evm)\<lparr>state :=
                    set_storage (state (env evm)) (current_target (message evm))
                      (to_be_bytes32 w) new_value\<rparr>,
                  refund_counter := refund_counter evm +
                    (if new_value = 0 \<and> current_value \<noteq> 0
                     then GAS_STORAGE_CLEAR_REFUND G else 0)\<rparr>))"
  by (simp add: sstore_def pop_def charge_gas_def Let_def butlast_append)

lemma stack_two_or_more:
  assumes "2 \<le> length stk"
  shows "\<exists>rest a b. stk = rest @ [a, b]"
proof (cases stk rule: rev_cases)
  case Nil
  with assms show ?thesis by simp
next
  case (snoc ys b)
  show ?thesis
  proof (cases ys rule: rev_cases)
    case Nil
    with snoc assms show ?thesis by simp
  next
    case (snoc zs a)
    with \<open>stk = ys @ [b]\<close> show ?thesis by simp
  qed
qed

lemma sstore_short:
  "length (stack evm) < 2 \<Longrightarrow> sstore G evm = Inl (StackUnderflowError, evm\<lparr>stack := []\<rparr>)"
proof (cases "stack evm")
  case Nil
  then show ?thesis by (simp add: sstore_Nil)
next
  case (Cons x xs)
  assume "length (stack evm) < 2"
  with Cons have "stack evm = [x]" by simp
  then show ?thesis by (rule sstore_single)
qed

lemma sstore_error_cases:
  assumes "sstore G evm = Inl (e, evm')"
  shows "(e = StackUnderflowError \<and> length (stack evm) < 2 \<and> evm' = evm\<lparr>stack := []\<rparr>) \<or>
         (e = OutOfGasError \<and>
          (\<exists>rest new_value w. stack evm = rest @ [new_value, w] \<and>
             evm' = evm\<lparr>stack := rest, gas_left := 0\<rparr> \<and>
             gas_left evm <
               (if new_value \<noteq> 0 \<and>
                   get_storage (state (env evm)) (current_target (message evm))
                     (to_be_bytes32 w) = 0
                then GAS_STORAGE_SET G else GAS_STORAGE_UPDATE G)))"
proof (cases "length (stack evm) < 2")
  case True
  with assms show ?thesis by (simp add: sstore_short)
next
  case False
  then have "2 \<le> length (stack evm)" by simp
  then obtain rest new_value w where shape: "stack evm = rest @ [new_value, w]"
    using stack_two_or_more by blast
  from assms have "e = OutOfGasError \<and> evm' = evm\<lparr>stack := rest, gas_left := 0\<rparr> \<and>
             gas_left evm <
               (if new_value \<noteq> 0 \<and>
                   get_storage (state (env evm)) (current_target (message evm))
                     (to_be_bytes32 w) = 0
                then GAS_STORAGE_SET G else GAS_STORAGE_UPDATE G)"
    unfolding sstore_snoc2 [OF shape refl refl] by (auto split: if_splits)
  with shape show ?thesis by blast
qed

lemma sload_refund_counter:
  "refund_counter (frame_after (sload G evm)) = refund_counter evm"
proof (cases "stack evm" rule: rev_cases)
  case Nil
  then show ?thesis by (simp add: sload_Nil frame_after_def)
next
  case (snoc rest w)
  then show ?thesis by (simp add: sload_snoc frame_after_def)
qed

lemma sstore_refund_counter:
  "refund_counter evm \<le> refund_counter (frame_after (sstore G evm)) \<and>
   refund_counter (frame_after (sstore G evm)) \<le>
     refund_counter evm + GAS_STORAGE_CLEAR_REFUND G"
proof (cases "length (stack evm) < 2")
  case True
  then show ?thesis by (simp add: sstore_short frame_after_def)
next
  case False
  then have "2 \<le> length (stack evm)" by simp
  then obtain rest new_value w where shape: "stack evm = rest @ [new_value, w]"
    using stack_two_or_more by blast
  show ?thesis by (simp add: sstore_snoc2 [OF shape refl refl] frame_after_def)
qed

lemma same_contents_set_storage:
  "same_contents s t \<Longrightarrow>
   same_contents (set_storage s address key v) (set_storage t address key v)"
  by (simp add: same_contents_def get_storage_set_storage)

lemma sload_same_outcome:
  assumes "same_frame a b"
  shows "same_outcome (sload G a) (sload G b)"
proof (cases "stack a" rule: rev_cases)
  case Nil
  with assms have "stack b = []" by (simp add: same_frame_def)
  with Nil assms show ?thesis by (simp add: sload_Nil same_outcome_def)
next
  case (snoc rest w)
  with assms have shape: "stack b = rest @ [w]" by (simp add: same_frame_def)
  from assms have read: "get_storage (state (env a)) (current_target (message a)) (to_be_bytes32 w) =
      get_storage (state (env b)) (current_target (message b)) (to_be_bytes32 w)"
    by (simp add: same_frame_def same_contents_def)
  from assms read show ?thesis
    by (simp add: sload_snoc [OF snoc] sload_snoc [OF shape] same_outcome_def same_frame_def)
qed

lemma sstore_same_outcome:
  assumes "same_frame a b"
  shows "same_outcome (sstore G a) (sstore G b)"
proof (cases "length (stack a) < 2")
  case True
  with assms have "length (stack b) < 2" by (simp add: same_frame_def)
  with True assms show ?thesis by (simp add: sstore_short same_outcome_def same_frame_def)
next
  case False
  then have "2 \<le> length (stack a)" by simp
  then obtain rest new_value w where shape_a: "stack a = rest @ [new_value, w]"
    using stack_two_or_more by blast
  with assms have shape_b: "stack b = rest @ [new_value, w]" by (simp add: same_frame_def)
  from assms have target: "current_target (message a) = current_target (message b)"
    by (simp add: same_frame_def)
  from assms have contents: "same_contents (state (env a)) (state (env b))"
    by (simp add: same_frame_def)
  then have read: "get_storage (state (env a)) (current_target (message a)) (to_be_bytes32 w) =
      get_storage (state (env b)) (current_target (message b)) (to_be_bytes32 w)"
    by (simp add: same_contents_def target)
  have written: "same_contents
      (set_storage (state (env a)) (current_target (message a)) (to_be_bytes32 w) new_value)
      (set_storage (state (env b)) (current_target (message b)) (to_be_bytes32 w) new_value)"
    unfolding target by (rule same_contents_set_storage [OF contents])
  from assms read written contents show ?thesis
    by (simp add: sstore_snoc2 [OF shape_a refl refl] sstore_snoc2 [OF shape_b refl refl]
        same_outcome_def same_frame_def)
qed

text \<open>
  A slot that was never written and a slot that holds zero are not told apart by either
  instruction: on frames that agree up to the contents of their world states, both give
  outcomes that agree in the same way.
\<close>

lemma storage_instructions_respect_contents:
  assumes "same_frame evm1 evm2"
  shows "same_outcome (sload G evm1) (sload G evm2) \<and>
         same_outcome (sstore G evm1) (sstore G evm2)"
  using sload_same_outcome [OF assms] sstore_same_outcome [OF assms] by (rule conjI)

section \<open>The claims\<close>

text \<open>
  C1. Every \<^verbatim>\<open>sstore\<close> that reaches the gas-charge step (its stack holds the key \<open>w\<close>
  on top of \<open>new_value\<close>) charges the cost of the spec's rule: it raises OutOfGas
  exactly when \<^verbatim>\<open>gas_left\<close> is below that cost, and otherwise returns with \<^verbatim>\<open>gas_left\<close>
  lowered by exactly that cost. The cost is \<^verbatim>\<open>GAS_STORAGE_SET\<close> when the new value is
  nonzero and the current value of the slot is zero, and \<^verbatim>\<open>GAS_STORAGE_UPDATE\<close> in
  every other case; when the two constants differ, it equals \<^verbatim>\<open>GAS_STORAGE_SET\<close> in
  that case only.
\<close>

theorem sstore_gas_charged:
  assumes "stack evm = rest @ [new_value, w]"
    and "current_value =
           get_storage (state (env evm)) (current_target (message evm)) (to_be_bytes32 w)"
  shows "(if gas_left evm < spec_store_cost G current_value new_value
          then \<exists>evm'. sstore G evm = Inl (OutOfGasError, evm')
          else \<exists>evm'. sstore G evm = Inr evm' \<and>
                 gas_left evm' = gas_left evm - spec_store_cost G current_value new_value) \<and>
         (if new_value \<noteq> 0 \<and> current_value = 0
          then spec_store_cost G current_value new_value = GAS_STORAGE_SET G
          else spec_store_cost G current_value new_value = GAS_STORAGE_UPDATE G) \<and>
         (GAS_STORAGE_SET G = GAS_STORAGE_UPDATE G \<or>
          (spec_store_cost G current_value new_value = GAS_STORAGE_SET G) =
            (new_value \<noteq> 0 \<and> current_value = 0))"
proof -
  have cost: "spec_store_cost G current_value new_value =
      (if new_value \<noteq> 0 \<and> current_value = 0 then GAS_STORAGE_SET G
       else GAS_STORAGE_UPDATE G)"
    by (auto simp: spec_store_cost_def)
  note closed = sstore_snoc2 [OF assms cost]
  have charge: "if gas_left evm < spec_store_cost G current_value new_value
          then \<exists>evm'. sstore G evm = Inl (OutOfGasError, evm')
          else \<exists>evm'. sstore G evm = Inr evm' \<and>
                 gas_left evm' = gas_left evm - spec_store_cost G current_value new_value"
    by (simp add: closed)
  have rule: "if new_value \<noteq> 0 \<and> current_value = 0
          then spec_store_cost G current_value new_value = GAS_STORAGE_SET G
          else spec_store_cost G current_value new_value = GAS_STORAGE_UPDATE G"
    by (auto simp: spec_store_cost_def)
  have exactly: "GAS_STORAGE_SET G = GAS_STORAGE_UPDATE G \<or>
          (spec_store_cost G current_value new_value = GAS_STORAGE_SET G) =
            (new_value \<noteq> 0 \<and> current_value = 0)"
    by (auto simp: spec_store_cost_def)
  from charge rule exactly show ?thesis by (intro conjI)
qed

theorem sstore_gas_charged_witness:
  "stack (scenario_frame [7, 5] 21100 Map.empty) = [] @ [7, 5] \<and>
   get_storage (state (env (scenario_frame [7, 5] 21100 Map.empty)))
     (current_target (message (scenario_frame [7, 5] 21100 Map.empty))) (to_be_bytes32 5) = 0 \<and>
   (\<exists>evm'. sstore scenario_gas (scenario_frame [7, 5] 21100 Map.empty) = Inr evm' \<and>
            gas_left evm' = 1100)"
  using sstore_gas_charged [of "scenario_frame [7, 5] 21100 Map.empty" "[]" 7 5 0 scenario_gas]
  by (simp add: scenario_frame_def scenario_gas_def get_storage_def spec_store_cost_def)

text \<open>
  C2. A successful \<^verbatim>\<open>sstore\<close> raises \<^verbatim>\<open>refund_counter\<close> by exactly
  \<^verbatim>\<open>GAS_STORAGE_CLEAR_REFUND\<close> when the new value is zero and the current value of the
  slot is nonzero, and leaves it unchanged for every other transition; this is the
  refund of the spec's rule, and one call never grants more than one refund.
\<close>

theorem sstore_refund:
  assumes "sstore G evm = Inr evm'"
    and "stack evm = rest @ [new_value, w]"
    and "current_value =
           get_storage (state (env evm)) (current_target (message evm)) (to_be_bytes32 w)"
  shows "refund_counter evm' =
           refund_counter evm + spec_store_refund G current_value new_value \<and>
         (if new_value = 0 \<and> current_value \<noteq> 0
          then refund_counter evm' = refund_counter evm + GAS_STORAGE_CLEAR_REFUND G
          else refund_counter evm' = refund_counter evm) \<and>
         refund_counter evm' \<le> refund_counter evm + GAS_STORAGE_CLEAR_REFUND G"
proof -
  have closed: "sstore G evm =
     (if gas_left evm < spec_store_cost G current_value new_value
      then Inl (OutOfGasError, evm\<lparr>stack := rest, gas_left := 0\<rparr>)
      else Inr (evm\<lparr>pc := pc evm + 1,
                  stack := rest,
                  gas_left := gas_left evm - spec_store_cost G current_value new_value,
                  env := (env evm)\<lparr>state :=
                    set_storage (state (env evm)) (current_target (message evm))
                      (to_be_bytes32 w) new_value\<rparr>,
                  refund_counter := refund_counter evm +
                    (if new_value = 0 \<and> current_value \<noteq> 0
                     then GAS_STORAGE_CLEAR_REFUND G else 0)\<rparr>))"
    by (rule sstore_snoc2 [OF assms(2,3)]) (auto simp: spec_store_cost_def)
  from assms(1) have "refund_counter evm' = refund_counter evm +
      (if new_value = 0 \<and> current_value \<noteq> 0 then GAS_STORAGE_CLEAR_REFUND G else 0)"
    unfolding closed by (auto split: if_splits)
  then show ?thesis
    by (auto simp: spec_store_refund_def)
qed

theorem sstore_refund_witness:
  "sstore scenario_gas (scenario_frame [0, 5] 21100 scenario_state) =
     Inr (scenario_frame [] 16100 (scenario_state((scenario_target, to_be_bytes32 5) \<mapsto> 0))
            \<lparr>pc := 1, refund_counter := 15000\<rparr>) \<and>
   stack (scenario_frame [0, 5] 21100 scenario_state) = [] @ [0, 5] \<and>
   get_storage (state (env (scenario_frame [0, 5] 21100 scenario_state)))
     (current_target (message (scenario_frame [0, 5] 21100 scenario_state)))
     (to_be_bytes32 5) = 7 \<and>
   refund_counter (scenario_frame [] 16100 (scenario_state((scenario_target, to_be_bytes32 5) \<mapsto> 0))
            \<lparr>pc := 1, refund_counter := 15000\<rparr>) =
     refund_counter (scenario_frame [0, 5] 21100 scenario_state) +
       GAS_STORAGE_CLEAR_REFUND scenario_gas"
proof -
  have run: "sstore scenario_gas (scenario_frame [0, 5] 21100 scenario_state) =
     Inr (scenario_frame [] 16100 (scenario_state((scenario_target, to_be_bytes32 5) \<mapsto> 0))
            \<lparr>pc := 1, refund_counter := 15000\<rparr>)"
    by (simp add: sstore_def pop_def charge_gas_def Let_def scenario_frame_def scenario_gas_def
        scenario_state_def get_storage_def set_storage_def)
  have shape: "stack (scenario_frame [0, 5] 21100 scenario_state) = [] @ [0, 5]"
    by (simp add: scenario_frame_def)
  have cur: "7 = get_storage (state (env (scenario_frame [0, 5] 21100 scenario_state)))
     (current_target (message (scenario_frame [0, 5] 21100 scenario_state)))
     (to_be_bytes32 5)"
    by (simp add: scenario_frame_def scenario_state_def get_storage_def)
  from sstore_refund [OF run shape cur] run shape cur show ?thesis
    by simp
qed

text \<open>
  C3. An \<^verbatim>\<open>sstore\<close> that raises OutOfGas has popped both operands and read the current
  value of the slot (the cost that \<^verbatim>\<open>gas_left\<close> fell short of is the cost for that
  value), but has neither written the slot nor granted the refund: the world state, and so
  every slot of it, and \<^verbatim>\<open>refund_counter\<close> are unchanged, and so is the program counter.
\<close>

theorem sstore_out_of_gas:
  assumes "sstore G evm = Inl (OutOfGasError, evm')"
  shows "state (env evm') = state (env evm) \<and>
         get_storage (state (env evm')) = get_storage (state (env evm)) \<and>
         refund_counter evm' = refund_counter evm \<and>
         pc evm' = pc evm \<and>
         (\<exists>rest new_value w.
            stack evm = rest @ [new_value, w] \<and> stack evm' = rest \<and>
            gas_left evm <
              spec_store_cost G
                (get_storage (state (env evm)) (current_target (message evm)) (to_be_bytes32 w))
                new_value)"
proof -
  from sstore_error_cases [OF assms]
  obtain rest new_value w where shape: "stack evm = rest @ [new_value, w]"
    and after: "evm' = evm\<lparr>stack := rest, gas_left := 0\<rparr>"
    and low: "gas_left evm <
               (if new_value \<noteq> 0 \<and>
                   get_storage (state (env evm)) (current_target (message evm))
                     (to_be_bytes32 w) = 0
                then GAS_STORAGE_SET G else GAS_STORAGE_UPDATE G)"
    by auto
  from low have "gas_left evm <
              spec_store_cost G
                (get_storage (state (env evm)) (current_target (message evm)) (to_be_bytes32 w))
                new_value"
    by (simp add: spec_store_cost_def conj_commute)
  with shape after have "\<exists>rest new_value w.
            stack evm = rest @ [new_value, w] \<and> stack evm' = rest \<and>
            gas_left evm <
              spec_store_cost G
                (get_storage (state (env evm)) (current_target (message evm)) (to_be_bytes32 w))
                new_value"
    by auto
  with after show ?thesis by simp
qed

theorem sstore_out_of_gas_witness:
  "sstore scenario_gas (scenario_frame [0, 5] 10 scenario_state) =
     Inl (OutOfGasError, scenario_frame [] 0 scenario_state) \<and>
   state (env (scenario_frame [] 0 scenario_state)) =
     state (env (scenario_frame [0, 5] 10 scenario_state)) \<and>
   get_storage (state (env (scenario_frame [] 0 scenario_state))) scenario_target
     (to_be_bytes32 5) = 7 \<and>
   refund_counter (scenario_frame [] 0 scenario_state) =
     refund_counter (scenario_frame [0, 5] 10 scenario_state)"
proof -
  have run: "sstore scenario_gas (scenario_frame [0, 5] 10 scenario_state) =
     Inl (OutOfGasError, scenario_frame [] 0 scenario_state)"
    by (simp add: sstore_def pop_def charge_gas_def Let_def scenario_frame_def scenario_gas_def
        scenario_state_def get_storage_def)
  have slot: "get_storage (state (env (scenario_frame [] 0 scenario_state))) scenario_target
     (to_be_bytes32 5) = 7"
    by (simp add: scenario_frame_def scenario_state_def get_storage_def)
  from sstore_out_of_gas [OF run] run slot show ?thesis
    by simp
qed

text \<open>
  C4. On a frame whose stack holds at least one word (\<open>w\<close> on top of \<open>rest\<close>, within
  the depth limit of 1024 that every frame keeps) and whose \<^verbatim>\<open>gas_left\<close> covers
  \<^verbatim>\<open>GAS_SLOAD\<close>, \<^verbatim>\<open>sload\<close> returns the frame with the top word replaced by the value
  of the slot of the current target under the key \<open>to_be_bytes32 w\<close>, \<^verbatim>\<open>gas_left\<close>
  lowered by \<^verbatim>\<open>GAS_SLOAD\<close> and \<^verbatim>\<open>pc\<close> advanced by one; nothing else of the frame or
  of the world state changes. The value is zero when the slot is unset and the stored
  word otherwise.

  The steps run in the order pop, charge, read, push, advance, and the order shows where
  a step fails. Given less gas than \<^verbatim>\<open>GAS_SLOAD\<close>, the same frame raises OutOfGas with
  the key already popped, nothing pushed and \<^verbatim>\<open>pc\<close> not advanced: the charge comes
  after the pop and before the push and the advance. Given the key on top of 1024 words,
  it raises StackOverflow with the gas already charged and \<^verbatim>\<open>pc\<close> not advanced: the
  push comes after the charge and before the advance. The read changes nothing, so its
  place shows only in the value pushed, which is read under the key popped.
\<close>

theorem sload_success:
  assumes "stack evm = rest @ [w]"
    and "GAS_SLOAD G \<le> gas_left evm"
    and "length (stack evm) \<le> 1024"
  shows "sload G evm =
           Inr (evm\<lparr>pc := pc evm + 1,
                    stack := rest @ [get_storage (state (env evm))
                                       (current_target (message evm)) (to_be_bytes32 w)],
                    gas_left := gas_left evm - GAS_SLOAD G\<rparr>) \<and>
         (if state (env evm) (current_target (message evm), to_be_bytes32 w) = None
          then get_storage (state (env evm)) (current_target (message evm))
                 (to_be_bytes32 w) = 0
          else state (env evm) (current_target (message evm), to_be_bytes32 w) =
                 Some (get_storage (state (env evm)) (current_target (message evm))
                         (to_be_bytes32 w))) \<and>
         (\<forall>g. g < GAS_SLOAD G \<longrightarrow>
            (\<exists>evm'. sload G (evm\<lparr>gas_left := g\<rparr>) = Inl (OutOfGasError, evm') \<and>
               stack evm' = rest \<and> pc evm' = pc evm \<and> env evm' = env evm \<and>
               refund_counter evm' = refund_counter evm)) \<and>
         (\<forall>deep. length deep = 1024 \<longrightarrow>
            (\<exists>evm'. sload G (evm\<lparr>stack := deep @ [w]\<rparr>) = Inl (StackOverflowError, evm') \<and>
               stack evm' = deep \<and> gas_left evm' = gas_left evm - GAS_SLOAD G \<and>
               pc evm' = pc evm \<and> env evm' = env evm))"
proof -
  from assms(1,3) have "length rest < 1024" by simp
  with assms(2) have run: "sload G evm =
           Inr (evm\<lparr>pc := pc evm + 1,
                    stack := rest @ [get_storage (state (env evm))
                                       (current_target (message evm)) (to_be_bytes32 w)],
                    gas_left := gas_left evm - GAS_SLOAD G\<rparr>)"
    by (simp add: sload_snoc [OF assms(1)])
  have unset: "if state (env evm) (current_target (message evm), to_be_bytes32 w) = None
          then get_storage (state (env evm)) (current_target (message evm))
                 (to_be_bytes32 w) = 0
          else state (env evm) (current_target (message evm), to_be_bytes32 w) =
                 Some (get_storage (state (env evm)) (current_target (message evm))
                         (to_be_bytes32 w))"
    by (auto simp: get_storage_def)
  have short: "\<forall>g. g < GAS_SLOAD G \<longrightarrow>
            (\<exists>evm'. sload G (evm\<lparr>gas_left := g\<rparr>) = Inl (OutOfGasError, evm') \<and>
               stack evm' = rest \<and> pc evm' = pc evm \<and> env evm' = env evm \<and>
               refund_counter evm' = refund_counter evm)"
  proof (intro allI impI)
    fix g
    assume low: "g < GAS_SLOAD G"
    from assms(1) have shape: "stack (evm\<lparr>gas_left := g\<rparr>) = rest @ [w]" by simp
    from low show "\<exists>evm'. sload G (evm\<lparr>gas_left := g\<rparr>) = Inl (OutOfGasError, evm') \<and>
               stack evm' = rest \<and> pc evm' = pc evm \<and> env evm' = env evm \<and>
               refund_counter evm' = refund_counter evm"
      by (simp add: sload_snoc [OF shape])
  qed
  have full: "\<forall>deep. length deep = 1024 \<longrightarrow>
            (\<exists>evm'. sload G (evm\<lparr>stack := deep @ [w]\<rparr>) = Inl (StackOverflowError, evm') \<and>
               stack evm' = deep \<and> gas_left evm' = gas_left evm - GAS_SLOAD G \<and>
               pc evm' = pc evm \<and> env evm' = env evm)"
  proof (intro allI impI)
    fix deep :: "U256 list"
    assume depth: "length deep = 1024"
    have shape: "stack (evm\<lparr>stack := deep @ [w]\<rparr>) = deep @ [w]" by simp
    from depth assms(2)
    show "\<exists>evm'. sload G (evm\<lparr>stack := deep @ [w]\<rparr>) = Inl (StackOverflowError, evm') \<and>
               stack evm' = deep \<and> gas_left evm' = gas_left evm - GAS_SLOAD G \<and>
               pc evm' = pc evm \<and> env evm' = env evm"
      by (simp add: sload_snoc [OF shape])
  qed
  from run unset short full show ?thesis by (intro conjI)
qed

theorem sload_success_witness:
  "stack (scenario_frame [9, 5] 21100 scenario_state) = [9] @ [5] \<and>
   GAS_SLOAD scenario_gas \<le> gas_left (scenario_frame [9, 5] 21100 scenario_state) \<and>
   length (stack (scenario_frame [9, 5] 21100 scenario_state)) \<le> 1024 \<and>
   sload scenario_gas (scenario_frame [9, 5] 21100 scenario_state) =
     Inr (scenario_frame [9, 7] 21050 scenario_state\<lparr>pc := 1\<rparr>) \<and>
   (\<exists>evm'. sload scenario_gas (scenario_frame [9, 5] 10 scenario_state) =
              Inl (OutOfGasError, evm') \<and> stack evm' = [9] \<and> pc evm' = 0)"
proof -
  have shape: "stack (scenario_frame [9, 5] 21100 scenario_state) = [9] @ [5]"
    by (simp add: scenario_frame_def)
  have gas: "GAS_SLOAD scenario_gas \<le> gas_left (scenario_frame [9, 5] 21100 scenario_state)"
    by (simp add: scenario_frame_def scenario_gas_def)
  have depth: "length (stack (scenario_frame [9, 5] 21100 scenario_state)) \<le> 1024"
    by (simp add: scenario_frame_def)
  note claim = sload_success [OF shape gas depth]
  have after: "(scenario_frame [9, 5] 21100 scenario_state)
         \<lparr>pc := pc (scenario_frame [9, 5] 21100 scenario_state) + 1,
          stack := [9] @ [get_storage (state (env (scenario_frame [9, 5] 21100 scenario_state)))
                      (current_target (message (scenario_frame [9, 5] 21100 scenario_state)))
                      (to_be_bytes32 5)],
          gas_left := gas_left (scenario_frame [9, 5] 21100 scenario_state) -
                        GAS_SLOAD scenario_gas\<rparr> =
      scenario_frame [9, 7] 21050 scenario_state\<lparr>pc := 1\<rparr>"
    by (simp add: scenario_frame_def scenario_gas_def scenario_state_def get_storage_def)
  from claim have run: "sload scenario_gas (scenario_frame [9, 5] 21100 scenario_state) =
     Inr (scenario_frame [9, 7] 21050 scenario_state\<lparr>pc := 1\<rparr>)"
    unfolding after by (rule conjunct1)
  have less: "(scenario_frame [9, 5] 21100 scenario_state)\<lparr>gas_left := 10\<rparr> =
      scenario_frame [9, 5] 10 scenario_state"
    by (simp add: scenario_frame_def)
  have low: "(10::nat) < GAS_SLOAD scenario_gas" by (simp add: scenario_gas_def)
  from claim have "\<forall>g. g < GAS_SLOAD scenario_gas \<longrightarrow>
            (\<exists>evm'. sload scenario_gas ((scenario_frame [9, 5] 21100 scenario_state)\<lparr>gas_left := g\<rparr>) =
                 Inl (OutOfGasError, evm') \<and>
               stack evm' = [9] \<and> pc evm' = pc (scenario_frame [9, 5] 21100 scenario_state) \<and>
               env evm' = env (scenario_frame [9, 5] 21100 scenario_state) \<and>
               refund_counter evm' = refund_counter (scenario_frame [9, 5] 21100 scenario_state))"
    by (elim conjE)
  with low have "\<exists>evm'. sload scenario_gas ((scenario_frame [9, 5] 21100 scenario_state)\<lparr>gas_left := 10\<rparr>) =
                 Inl (OutOfGasError, evm') \<and>
               stack evm' = [9] \<and> pc evm' = pc (scenario_frame [9, 5] 21100 scenario_state) \<and>
               env evm' = env (scenario_frame [9, 5] 21100 scenario_state) \<and>
               refund_counter evm' = refund_counter (scenario_frame [9, 5] 21100 scenario_state)"
    by blast
  then have fail: "\<exists>evm'. sload scenario_gas (scenario_frame [9, 5] 10 scenario_state) =
              Inl (OutOfGasError, evm') \<and> stack evm' = [9] \<and> pc evm' = 0"
    unfolding less by (auto simp: scenario_frame_def)
  from shape gas depth run fail show ?thesis by (intro conjI)
qed

text \<open>
  C5. After a successful \<^verbatim>\<open>sstore\<close> of the value \<open>v\<close> under the key \<open>k\<close>, the slot of
  the current target under that key reads \<open>v\<close>, and an \<^verbatim>\<open>sload\<close> of the same key on the
  frame the store left (the key on top of any stack \<open>st\<close> within the depth limit, with
  enough gas) returns with \<open>v\<close> on top of \<open>st\<close>.
\<close>

theorem sstore_then_sload:
  assumes "sstore G evm = Inr evm1"
    and "stack evm = rest @ [v, k]"
    and "GAS_SLOAD G \<le> gas_left evm1"
    and "length st < 1024"
  shows "get_storage (state (env evm1)) (current_target (message evm)) (to_be_bytes32 k) = v \<and>
         (\<exists>evm2. sload G (evm1\<lparr>stack := st @ [k]\<rparr>) = Inr evm2 \<and> stack evm2 = st @ [v])"
proof -
  from assms(1) have after: "state (env evm1) =
        set_storage (state (env evm)) (current_target (message evm)) (to_be_bytes32 k) v"
      and target: "current_target (message evm1) = current_target (message evm)"
    unfolding sstore_snoc2 [OF assms(2) refl refl] by (auto split: if_splits)
  have stored: "get_storage (state (env evm1)) (current_target (message evm))
      (to_be_bytes32 k) = v"
    by (simp add: after get_storage_set_storage)
  have shape: "stack (evm1\<lparr>stack := st @ [k]\<rparr>) = st @ [k]" by simp
  from assms(3,4) stored target
  have "\<exists>evm2. sload G (evm1\<lparr>stack := st @ [k]\<rparr>) = Inr evm2 \<and> stack evm2 = st @ [v]"
    by (simp add: sload_snoc [OF shape])
  with stored show ?thesis by (rule conjI)
qed

theorem sstore_then_sload_witness:
  "sstore scenario_gas (scenario_frame [5, 7, 5] 21100 Map.empty) =
     Inr (scenario_frame [5] 1100 (Map.empty((scenario_target, to_be_bytes32 5) \<mapsto> 7))
            \<lparr>pc := 1\<rparr>) \<and>
   (\<exists>evm2. sload scenario_gas
            (scenario_frame [5] 1100 (Map.empty((scenario_target, to_be_bytes32 5) \<mapsto> 7))
               \<lparr>pc := 1\<rparr>) = Inr evm2 \<and>
          stack evm2 = [7])"
proof -
  have run: "sstore scenario_gas (scenario_frame [5, 7, 5] 21100 Map.empty) =
     Inr (scenario_frame [5] 1100 (Map.empty((scenario_target, to_be_bytes32 5) \<mapsto> 7))
            \<lparr>pc := 1\<rparr>)"
    by (simp add: sstore_def pop_def charge_gas_def Let_def scenario_frame_def scenario_gas_def
        get_storage_def set_storage_def)
  have shape: "stack (scenario_frame [5, 7, 5] 21100 Map.empty) = [5] @ [7, 5]"
    by (simp add: scenario_frame_def)
  have gas: "GAS_SLOAD scenario_gas \<le>
      gas_left (scenario_frame [5] 1100 (Map.empty((scenario_target, to_be_bytes32 5) \<mapsto> 7))
            \<lparr>pc := 1\<rparr>)"
    by (simp add: scenario_frame_def scenario_gas_def)
  have depth: "length ([] :: U256 list) < 1024" by simp
  from sstore_then_sload [OF run shape gas depth] run show ?thesis
    by (simp add: scenario_frame_def)
qed

text \<open>
  C6. On a frame whose stack holds fewer than two words, \<^verbatim>\<open>sstore\<close> raises
  StackUnderflow. No gas is charged: \<^verbatim>\<open>gas_left\<close> is unchanged, as are the world state,
  \<^verbatim>\<open>refund_counter\<close> and \<^verbatim>\<open>pc\<close>. No slot is read: whatever world state the frame is
  given, the outcome is the same error and the same frame.
\<close>

theorem sstore_stack_underflow:
  assumes "length (stack evm) < 2"
  shows "sstore G evm = Inl (StackUnderflowError, evm\<lparr>stack := []\<rparr>) \<and>
         gas_left (frame_after (sstore G evm)) = gas_left evm \<and>
         env (frame_after (sstore G evm)) = env evm \<and>
         refund_counter (frame_after (sstore G evm)) = refund_counter evm \<and>
         pc (frame_after (sstore G evm)) = pc evm \<and>
         (\<forall>s. sstore G (evm\<lparr>env := (env evm)\<lparr>state := s\<rparr>\<rparr>) =
                Inl (StackUnderflowError, evm\<lparr>stack := [], env := (env evm)\<lparr>state := s\<rparr>\<rparr>))"
proof -
  have any: "sstore G (evm\<lparr>env := (env evm)\<lparr>state := s\<rparr>\<rparr>) =
         Inl (StackUnderflowError, evm\<lparr>stack := [], env := (env evm)\<lparr>state := s\<rparr>\<rparr>)" for s
  proof -
    from assms have "length (stack (evm\<lparr>env := (env evm)\<lparr>state := s\<rparr>\<rparr>)) < 2" by simp
    from sstore_short [OF this] show ?thesis by simp
  qed
  from sstore_short [OF assms] any show ?thesis
    by (simp add: frame_after_def)
qed

theorem sstore_stack_underflow_witness:
  "length (stack (scenario_frame [5] 21100 scenario_state)) < 2 \<and>
   sstore scenario_gas (scenario_frame [5] 21100 scenario_state) =
     Inl (StackUnderflowError, scenario_frame [] 21100 scenario_state) \<and>
   gas_left (frame_after (sstore scenario_gas (scenario_frame [5] 21100 scenario_state))) = 21100"
proof -
  have short: "length (stack (scenario_frame [5] 21100 scenario_state)) < 2"
    by (simp add: scenario_frame_def)
  have emptied: "(scenario_frame [5] 21100 scenario_state)\<lparr>stack := []\<rparr> =
      scenario_frame [] 21100 scenario_state"
    by (simp add: scenario_frame_def)
  have gas: "gas_left (scenario_frame [5] 21100 scenario_state) = 21100"
    by (simp add: scenario_frame_def)
  note claim = sstore_stack_underflow [OF short, of scenario_gas]
  from claim have run: "sstore scenario_gas (scenario_frame [5] 21100 scenario_state) =
     Inl (StackUnderflowError, scenario_frame [] 21100 scenario_state)"
    unfolding emptied by (rule conjunct1)
  from claim have "gas_left (frame_after (sstore scenario_gas
      (scenario_frame [5] 21100 scenario_state))) = 21100"
    unfolding gas by (elim conjE)
  with short run show ?thesis by (intro conjI)
qed

text \<open>
  C7. On a frame whose stack is empty, \<^verbatim>\<open>sload\<close> raises StackUnderflow and leaves the
  frame as it was: \<^verbatim>\<open>gas_left\<close>, the stack, \<^verbatim>\<open>pc\<close>, \<^verbatim>\<open>refund_counter\<close> and the
  world state are all unchanged.
\<close>

theorem sload_stack_underflow:
  assumes "stack evm = []"
  shows "sload G evm = Inl (StackUnderflowError, evm) \<and>
         gas_left (frame_after (sload G evm)) = gas_left evm \<and>
         stack (frame_after (sload G evm)) = stack evm \<and>
         pc (frame_after (sload G evm)) = pc evm \<and>
         refund_counter (frame_after (sload G evm)) = refund_counter evm \<and>
         state (env (frame_after (sload G evm))) = state (env evm)"
  using sload_Nil [OF assms] by (simp add: frame_after_def)

theorem sload_stack_underflow_witness:
  "stack (scenario_frame [] 21100 scenario_state) = [] \<and>
   sload scenario_gas (scenario_frame [] 21100 scenario_state) =
     Inl (StackUnderflowError, scenario_frame [] 21100 scenario_state)"
proof -
  have empty: "stack (scenario_frame [] 21100 scenario_state) = []"
    by (simp add: scenario_frame_def)
  from sload_stack_underflow [OF empty, of scenario_gas] empty show ?thesis
    by simp
qed

text \<open>
  C8. No invocation of \<^verbatim>\<open>sload\<close> or \<^verbatim>\<open>sstore\<close>, returning or raising, lowers
  \<^verbatim>\<open>refund_counter\<close>: \<^verbatim>\<open>sload\<close> leaves it as it was, and \<^verbatim>\<open>sstore\<close> leaves it
  at least as large.
\<close>

theorem refund_counter_never_decremented:
  "refund_counter (frame_after (sload G evm)) = refund_counter evm \<and>
   refund_counter evm \<le> refund_counter (frame_after (sstore G evm))"
  using sload_refund_counter [of G evm] sstore_refund_counter [of evm G] by simp

text \<open>
  C10. On a frame whose stack holds exactly one word, the first \<^verbatim>\<open>pop\<close> of
  \<^verbatim>\<open>sstore\<close> succeeds and removes that word, and the second, on the stack now empty,
  raises StackUnderflow. The frame the error leaves has an empty stack, which is not the
  stack the frame came with; \<^verbatim>\<open>gas_left\<close> and the world state are unchanged.
\<close>

theorem sstore_one_word_stack:
  assumes "stack evm = [x]"
  shows "pop (stack evm) = Inr (x, []) \<and>
         pop [] = Inl StackUnderflowError \<and>
         sstore G evm = Inl (StackUnderflowError, evm\<lparr>stack := []\<rparr>) \<and>
         stack (frame_after (sstore G evm)) = [] \<and>
         stack (frame_after (sstore G evm)) \<noteq> stack evm \<and>
         gas_left (frame_after (sstore G evm)) = gas_left evm \<and>
         state (env (frame_after (sstore G evm))) = state (env evm)"
  using sstore_single [OF assms, of G] assms by (simp add: frame_after_def pop_def)

theorem sstore_one_word_stack_witness:
  "stack (scenario_frame [5] 21100 scenario_state) = [5] \<and>
   sstore scenario_gas (scenario_frame [5] 21100 scenario_state) =
     Inl (StackUnderflowError, scenario_frame [] 21100 scenario_state) \<and>
   stack (frame_after (sstore scenario_gas (scenario_frame [5] 21100 scenario_state))) = []"
proof -
  have one: "stack (scenario_frame [5] 21100 scenario_state) = [5]"
    by (simp add: scenario_frame_def)
  have emptied: "(scenario_frame [5] 21100 scenario_state)\<lparr>stack := []\<rparr> =
      scenario_frame [] 21100 scenario_state"
    by (simp add: scenario_frame_def)
  note claim = sstore_one_word_stack [OF one, of scenario_gas]
  from claim have run: "sstore scenario_gas (scenario_frame [5] 21100 scenario_state) =
     Inl (StackUnderflowError, scenario_frame [] 21100 scenario_state)"
    unfolding emptied by (elim conjE)
  from claim have "stack (frame_after (sstore scenario_gas
      (scenario_frame [5] 21100 scenario_state))) = []"
    by (elim conjE)
  with one run show ?thesis by (intro conjI)
qed

end
